theory Spec2Isabelle
  imports Main
begin

section \<open>Python strings\<close>

text \<open>
  A Python \<open>str\<close> is a sequence of code points. The model uses \<open>string\<close>, so one
  \<open>char\<close> stands for one code point below 256. \<open>str.strip()\<close> without arguments removes
  leading and trailing white space; below 256 the white-space code points of CPython are
  9..13, 28..32, 133 and 160. \<open>str.lower()\<close> maps A..Z and the Latin-1 capitals
  192..222 (without the multiplication sign 215) to the code point 32 above, and leaves
  every other code point below 256 unchanged.
\<close>

definition py_isspace :: "char \<Rightarrow> bool" where
  "py_isspace c = (let n = (of_char c :: nat) in
     (9 \<le> n \<and> n \<le> 13) \<or> (28 \<le> n \<and> n \<le> 32) \<or> n = 133 \<or> n = 160)"

definition py_lower_char :: "char \<Rightarrow> char" where
  "py_lower_char c = (let n = (of_char c :: nat) in
     if (65 \<le> n \<and> n \<le> 90) \<or> (192 \<le> n \<and> n \<le> 222 \<and> n \<noteq> 215)
     then char_of (n + 32) else c)"

definition py_strip :: "string \<Rightarrow> string" where
  "py_strip s = rev (dropWhile py_isspace (rev (dropWhile py_isspace s)))"

definition py_lower :: "string \<Rightarrow> string" where
  "py_lower s = map py_lower_char s"

text \<open>The expression \<open>value.strip().lower()\<close>, which the option resolvers apply to every
  environment value.\<close>

definition strip_lower :: "string \<Rightarrow> string" where
  "strip_lower s = py_lower (py_strip s)"

text \<open>The test \<open>if env:\<close> on an \<open>Optional[str]\<close> passes when the variable is set and not
  empty; \<open>nonempty\<close> gives the string in that case.\<close>

definition nonempty :: "string option \<Rightarrow> string option" where
  "nonempty v = (case v of None \<Rightarrow> None | Some s \<Rightarrow> if s = [] then None else Some s)"


section \<open>pytest\_plugins/options.py\<close>

definition TRUTHY_VALUES :: "string set" where
  "TRUTHY_VALUES = {''1'', ''true'', ''yes'', ''on'', ''enabled''}"

definition FALSY_VALUES :: "string set" where
  "FALSY_VALUES = {''0'', ''false'', ''no'', ''off'', ''disabled''}"

definition VIDEO_KEEP_VALUES :: "string set" where
  "VIDEO_KEEP_VALUES = {''all'', ''always'', ''keep''}"

definition TRACE_MODES :: "string set" where
  "TRACE_MODES = {''off'', ''on'', ''retain-on-failure''}"

record VideoPreferences =
  record_on :: bool
  keep_on_pass :: bool

record TracePreferences =
  enabled :: bool
  retain_on_failure :: bool

record ArtifactPreferences =
  video :: VideoPreferences
  trace :: TracePreferences

text \<open>\<open>_parse_bool\<close>: \<open>None\<close> is the undecided value.\<close>

definition parse_bool :: "string option \<Rightarrow> bool option" where
  "parse_bool value_opt =
     (case value_opt of
        None \<Rightarrow> None
      | Some v \<Rightarrow>
          (let normalized = strip_lower v in
           if normalized \<in> TRUTHY_VALUES then Some True
           else if normalized \<in> FALSY_VALUES then Some False
           else None))"

text \<open>\<open>_resolve_video_preferences\<close>. The two command-line flags are \<open>store_true\<close>
  options, so \<open>bool(getoption(...))\<close> is the flag; \<open>os.getenv\<close> gives a string or
  \<open>None\<close>.\<close>

definition resolve_video_preferences ::
  "bool \<Rightarrow> bool \<Rightarrow> string option \<Rightarrow> string option \<Rightarrow> VideoPreferences" where
  "resolve_video_preferences cli_video cli_keep env_video env_keep =
     (let (rec1, keep1) =
        (case nonempty env_video of
           Some ev \<Rightarrow>
             (let normalized = strip_lower ev;
                  parsed = parse_bool (Some normalized)
              in case parsed of
                   Some b \<Rightarrow> (b, cli_keep)
                 | None \<Rightarrow>
                     if normalized \<in> VIDEO_KEEP_VALUES then (True, True)
                     else (True, cli_keep))
         | None \<Rightarrow> (cli_video, cli_keep));
          keep_override = parse_bool env_keep;
          keep2 = (case keep_override of Some b \<Rightarrow> b | None \<Rightarrow> keep1)
      in \<lparr>record_on = rec1, keep_on_pass = keep2\<rparr>)"

text \<open>The mode that \<open>_resolve_trace_preferences\<close> computes before it derives the two
  flags. \<open>if parsed:\<close> holds for \<open>True\<close> only.\<close>

definition resolve_trace_mode :: "string \<Rightarrow> string option \<Rightarrow> string" where
  "resolve_trace_mode cli_mode env_trace =
     (case nonempty env_trace of
        Some ev \<Rightarrow>
          (let normalized = strip_lower ev in
           if normalized \<in> TRACE_MODES then normalized
           else (let parsed = parse_bool (Some normalized) in
                 if parsed = Some True
                 then (if normalized \<in> VIDEO_KEEP_VALUES then ''retain-on-failure'' else ''on'')
                 else cli_mode))
      | None \<Rightarrow> cli_mode)"

definition resolve_trace_preferences :: "string \<Rightarrow> string option \<Rightarrow> TracePreferences" where
  "resolve_trace_preferences cli_mode env_trace =
     (let mode = resolve_trace_mode cli_mode env_trace
      in \<lparr>enabled = (mode \<noteq> ''off''), retain_on_failure = (mode = ''retain-on-failure'')\<rparr>)"

definition artifact_preferences ::
  "bool \<Rightarrow> bool \<Rightarrow> string \<Rightarrow> string option \<Rightarrow> string option \<Rightarrow> string option
    \<Rightarrow> ArtifactPreferences" where
  "artifact_preferences cli_video cli_keep cli_mode env_video env_keep env_trace =
     \<lparr>video = resolve_video_preferences cli_video cli_keep env_video env_keep,
      trace = resolve_trace_preferences cli_mode env_trace\<rparr>"


section \<open>helpers/files.py\<close>

text \<open>\<open>safe_filename\<close>: \<open>re.sub(r"[^A-Za-z0-9._-]", "_", text)\<close> visits the code points
  one by one and replaces each one outside the class by an underscore.\<close>

definition allowed_char :: "char \<Rightarrow> bool" where
  "allowed_char c = (let n = (of_char c :: nat) in
     (65 \<le> n \<and> n \<le> 90) \<or> (97 \<le> n \<and> n \<le> 122) \<or> (48 \<le> n \<and> n \<le> 57)
     \<or> c = CHR ''.'' \<or> c = CHR ''_'' \<or> c = CHR ''-'')"

definition safe_filename :: "string \<Rightarrow> string" where
  "safe_filename s = map (\<lambda>c. if allowed_char c then c else CHR ''_'') s"

text \<open>A \<open>pathlib.Path\<close> is its list of components. \<open>joinpath p s\<close> is \<open>p / s\<close> for a
  name \<open>s\<close> that is one relative component, which is the only way the artifact code uses
  the operator: the names are \<open>videos\<close>, \<open>traces\<close>, \<open>screenshots\<close> and a sanitized file
  name with its extension.\<close>

datatype path = Path (parts: "string list")

definition joinpath :: "path \<Rightarrow> string \<Rightarrow> path" where
  "joinpath p s = Path (parts p @ [s])"

definition parent :: "path \<Rightarrow> path" where
  "parent p = Path (butlast (parts p))"


section \<open>Calls to the collaborators\<close>

text \<open>
  The browser engine, the report sink, the file system and the configuration loader are
  outside the repository. Each call to one of them is recorded in the order it is made,
  and each may raise; which calls raise is the parameter \<open>raises\<close>. A run of a piece of
  code is the list of its events together with either the exception that left it or its
  value.
\<close>

type_synonym video_handle = nat

datatype ext_call =
    GetAppConfig
  | EnsureDir path
  | NewContext bool
  | SetDefaultTimeout
  | SetDefaultNavigationTimeout
  | TracingStart
  | PageScreenshot path
  | AllureAttachPng string
  | PageContent
  | AllureAttachHtml string
  | PageVideo
  | PageClose
  | VideoSaveAs video_handle path
  | AllureAttachFile path
  | VideoDelete video_handle
  | TracingStop "path option"
  | ContextClose

datatype exn = Raised ext_call

datatype log_level = Warning | Error

datatype event = Called ext_call | Logged log_level string exn

type_synonym world = "ext_call \<Rightarrow> bool"

type_synonym 'a run = "event list \<times> (exn + 'a)"

definition ret :: "'a \<Rightarrow> 'a run" where
  "ret x = ([], Inr x)"

definition invoke :: "world \<Rightarrow> ext_call \<Rightarrow> unit run" where
  "invoke raises c = ([Called c], if raises c then Inl (Raised c) else Inr ())"

definition and_then :: "'a run \<Rightarrow> ('a \<Rightarrow> 'b run) \<Rightarrow> 'b run" where
  "and_then m f =
     (case m of
        (es, Inl x) \<Rightarrow> (es, Inl x)
      | (es, Inr a) \<Rightarrow> (case f a of (es', r) \<Rightarrow> (es @ es', r)))"

definition try_except :: "'a run \<Rightarrow> (exn \<Rightarrow> 'a run) \<Rightarrow> 'a run" where
  "try_except m handler =
     (case m of
        (es, Inl x) \<Rightarrow> (case handler x of (es', r) \<Rightarrow> (es @ es', r))
      | (es, Inr a) \<Rightarrow> (es, Inr a))"

definition log :: "log_level \<Rightarrow> string \<Rightarrow> exn \<Rightarrow> unit run" where
  "log level msg x = ([Logged level msg x], Inr ())"

text \<open>\<open>get_artifact_path\<close> asks \<open>get_app_config(None)\<close>, which raises when no admin host
  is configured; \<open>artifacts_dir\<close> is the directory of the configuration it returns.\<close>

definition get_artifact_path :: "world \<Rightarrow> path \<Rightarrow> string \<Rightarrow> path run" where
  "get_artifact_path raises artifacts_dir artifact_type =
     and_then (invoke raises GetAppConfig) (\<lambda>_. ret (joinpath artifacts_dir artifact_type))"

definition ensure_dir :: "world \<Rightarrow> path \<Rightarrow> path run" where
  "ensure_dir raises p = and_then (invoke raises (EnsureDir p)) (\<lambda>_. ret p)"


section \<open>helpers/media.py\<close>

definition finalize_video_artifact ::
  "world \<Rightarrow> path \<Rightarrow> video_handle option \<Rightarrow> string \<Rightarrow> bool \<Rightarrow> bool \<Rightarrow> path option run" where
  "finalize_video_artifact raises artifacts_dir video_obj nid keep attach_on_keep =
     (case video_obj of
        None \<Rightarrow> ret None
      | Some v \<Rightarrow>
          if keep then
            and_then (get_artifact_path raises artifacts_dir ''videos'') (\<lambda>d.
              let vpath = joinpath d (safe_filename nid @ ''.webm'') in
              and_then (ensure_dir raises (parent vpath)) (\<lambda>_.
              and_then (invoke raises (VideoSaveAs v vpath)) (\<lambda>_.
              and_then (if attach_on_keep then invoke raises (AllureAttachFile vpath)
                        else ret ()) (\<lambda>_.
              and_then (invoke raises (VideoDelete v)) (\<lambda>_.
              ret (Some vpath))))))
          else
            and_then (invoke raises (VideoDelete v)) (\<lambda>_. ret None))"


section \<open>pytest\_plugins/playwright.py\<close>

text \<open>A phase report of pytest, as far as the fixtures read it: each attribute is read
  with \<open>getattr\<close> and a default, so each may be absent.\<close>

record report =
  rep_failed :: "bool option"
  rep_skipped :: "bool option"
  rep_outcome :: "string option"

record node =
  nodeid :: string
  name :: string
  rep_setup :: "report option"
  rep_call :: "report option"
  rep_teardown :: "report option"

definition is_failed :: "report \<Rightarrow> bool" where
  "is_failed rep = (case rep_failed rep of None \<Rightarrow> False | Some b \<Rightarrow> b)"

definition is_skipped :: "report \<Rightarrow> bool" where
  "is_skipped rep =
     ((case rep_skipped rep of None \<Rightarrow> False | Some b \<Rightarrow> b)
      \<or> (case rep_outcome rep of None \<Rightarrow> [] | Some s \<Rightarrow> s) = ''skipped'')"

text \<open>The reports that exist, in the order \<open>(rep_setup, rep_call, rep_teardown)\<close>.\<close>

definition present_reports :: "node \<Rightarrow> report list" where
  "present_reports n = List.map_filter (\<lambda>r. r) [rep_setup n, rep_call n, rep_teardown n]"

definition failed_any :: "node \<Rightarrow> bool" where
  "failed_any n = list_ex is_failed (present_reports n)"

definition skipped_any :: "node \<Rightarrow> bool" where
  "skipped_any n = list_ex is_skipped (present_reports n)"

definition capture_needed :: "node \<Rightarrow> bool" where
  "capture_needed n = (failed_any n \<or> skipped_any n)"

text \<open>The flags that the \<open>context\<close> fixture stores on the browser context with
  \<open>setattr\<close>. It sets all five right after the context is created, so the defaults of the
  later \<open>getattr\<close> calls are never used.\<close>

record context_attrs =
  record_video_enabled :: bool
  keep_video_on_pass :: bool
  trace_enabled :: bool
  trace_retain_on_failure :: bool
  last_failed :: bool

definition trace_path :: "world \<Rightarrow> path \<Rightarrow> string \<Rightarrow> path run" where
  "trace_path raises artifacts_dir nid =
     and_then (get_artifact_path raises artifacts_dir ''traces'')
       (\<lambda>d. ret (joinpath d (safe_filename nid @ ''.zip'')))"

text \<open>The \<open>finally\<close> block of the \<open>context\<close> fixture. \<open>None\<close> is the case that
  \<open>browser.new_context\<close> raised and no context exists.\<close>

definition context_teardown ::
  "world \<Rightarrow> path \<Rightarrow> context_attrs option \<Rightarrow> bool \<Rightarrow> node \<Rightarrow> unit run" where
  "context_teardown raises artifacts_dir context_opt tracing_started n =
     (case context_opt of
        None \<Rightarrow> ret ()
      | Some ctx \<Rightarrow>
          and_then
            (if trace_enabled ctx \<and> tracing_started then
               try_except
                 (if trace_retain_on_failure ctx \<and> \<not> last_failed ctx then
                    invoke raises (TracingStop None)
                  else
                    and_then (trace_path raises artifacts_dir (nodeid n))
                      (\<lambda>p. invoke raises (TracingStop (Some p))))
                 (\<lambda>x. log Warning ''Failed to stop tracing for %s: %s'' x)
             else ret ())
            (\<lambda>_. try_except (invoke raises ContextClose)
                    (\<lambda>x. log Warning ''Failed to close context for %s: %s'' x)))"

text \<open>The \<open>context\<close> fixture up to its \<open>yield\<close>. The value is the context's flags and
  \<open>tracing_started\<close>. The two directory calls stand before the \<open>try\<close>: an exception there
  leaves the fixture at once. An exception inside the \<open>try\<close> runs the \<open>finally\<close> block
  with the state reached so far (no context when \<open>new_context\<close> raised, tracing not
  started otherwise), and the fixture yields nothing: the run ends in \<open>Inl\<close>.\<close>

definition context_setup ::
  "world \<Rightarrow> path \<Rightarrow> ArtifactPreferences \<Rightarrow> node \<Rightarrow> (context_attrs \<times> bool) run" where
  "context_setup raises artifacts_dir prefs n =
     (let video_prefs = video prefs; trace_prefs = trace prefs in
      and_then (and_then (get_artifact_path raises artifacts_dir ''traces'') (ensure_dir raises))
        (\<lambda>_.
      and_then (if record_on video_prefs
                then and_then (and_then (get_artifact_path raises artifacts_dir ''videos'')
                                 (ensure_dir raises)) (\<lambda>_. ret ())
                else ret ())
        (\<lambda>_.
      case invoke raises (NewContext (record_on video_prefs)) of
        (es, Inl x) \<Rightarrow> (es @ fst (context_teardown raises artifacts_dir None False n), Inl x)
      | (es, Inr _) \<Rightarrow>
          (let ctx = \<lparr>record_video_enabled = record_on video_prefs,
                      keep_video_on_pass = keep_on_pass video_prefs,
                      trace_enabled = enabled trace_prefs,
                      trace_retain_on_failure = retain_on_failure trace_prefs,
                      last_failed = False\<rparr>
           in case and_then (invoke raises SetDefaultTimeout) (\<lambda>_.
                   and_then (invoke raises SetDefaultNavigationTimeout) (\<lambda>_.
                   if enabled trace_prefs
                   then and_then (invoke raises TracingStart) (\<lambda>_. ret True)
                   else ret False)) of
                (es', Inl x) \<Rightarrow>
                  (es @ es' @ fst (context_teardown raises artifacts_dir (Some ctx) False n),
                   Inl x)
              | (es', Inr started) \<Rightarrow> (es @ es', Inr (ctx, started))))))"

text \<open>The diagnostics of the \<open>page\<close> fixture: the screenshot and the DOM snapshot, each
  in its own \<open>try\<close>.\<close>

definition capture_diagnostics :: "world \<Rightarrow> path \<Rightarrow> node \<Rightarrow> unit run" where
  "capture_diagnostics raises artifacts_dir n =
     and_then
       (try_except
          (and_then (and_then (get_artifact_path raises artifacts_dir ''screenshots'')
                       (ensure_dir raises)) (\<lambda>screenshots_dir.
             let screenshot_path = joinpath screenshots_dir (safe_filename (nodeid n) @ ''.png'')
             in and_then (invoke raises (PageScreenshot screenshot_path)) (\<lambda>_.
                invoke raises (AllureAttachPng (''screenshot-'' @ name n)))))
          (\<lambda>x. log Error ''Failed to capture screenshot: %s'' x))
       (\<lambda>_. try_except
               (and_then (invoke raises PageContent) (\<lambda>_.
                  invoke raises (AllureAttachHtml (''dom-'' @ name n @ ''.html''))))
               (\<lambda>x. log Error ''Failed to capture HTML: %s'' x))"

text \<open>The \<open>page\<close> fixture after its \<open>yield\<close>. \<open>page_video\<close> is what the attribute
  \<open>page.video\<close> holds. The result is the context with \<open>last_failed\<close> stored, and the run;
  its value is what \<open>finalize_video_artifact\<close> returned, or \<open>None\<close> where the fixture
  does not call it.\<close>

definition page_teardown ::
  "world \<Rightarrow> path \<Rightarrow> context_attrs \<Rightarrow> node \<Rightarrow> video_handle option
    \<Rightarrow> context_attrs \<times> path option run" where
  "page_teardown raises artifacts_dir ctx n page_video =
     (let failed = failed_any n; skipped = skipped_any n in
      (ctx\<lparr>last_failed := failed\<rparr>,
       and_then (if failed \<or> skipped then capture_diagnostics raises artifacts_dir n
                 else ret ()) (\<lambda>_.
       and_then (try_except (and_then (invoke raises PageVideo) (\<lambda>_. ret page_video))
                   (\<lambda>_. ret None)) (\<lambda>video_obj.
       and_then (try_except (invoke raises PageClose)
                   (\<lambda>x. log Warning ''Error closing page: %s'' x)) (\<lambda>_.
       if record_video_enabled ctx then
         finalize_video_artifact raises artifacts_dir video_obj (nodeid n)
           (failed \<or> skipped \<or> keep_video_on_pass ctx) (failed \<or> skipped)
       else if video_obj \<noteq> None then
         finalize_video_artifact raises artifacts_dir video_obj (nodeid n) False False
       else ret None)))))"

text \<open>The teardown of one test that uses both fixtures. \<open>page\<close> requests \<open>context\<close>, so
  pytest finalizes \<open>page\<close> first and \<open>context\<close> after it, and it runs the second
  finalizer also when the first one raised. The result is the events of both in that
  order and the outcome of each.\<close>

definition test_teardown ::
  "world \<Rightarrow> path \<Rightarrow> context_attrs \<Rightarrow> bool \<Rightarrow> node \<Rightarrow> video_handle option
    \<Rightarrow> event list \<times> (exn + path option) \<times> (exn + unit)" where
  "test_teardown raises artifacts_dir ctx tracing_started n page_video =
     (case page_teardown raises artifacts_dir ctx n page_video of
        (ctx', (es1, r1)) \<Rightarrow>
          (case context_teardown raises artifacts_dir (Some ctx') tracing_started n of
             (es2, r2) \<Rightarrow> (es1 @ es2, r1, r2)))"


section \<open>Reading a run\<close>

text \<open>The artifact layout: \<open><artifacts>/videos/<sanitized nodeid>.webm\<close> and
  \<open><artifacts>/traces/<sanitized nodeid>.zip\<close>.\<close>

definition video_file :: "path \<Rightarrow> string \<Rightarrow> path" where
  "video_file artifacts_dir nid =
     Path (parts artifacts_dir @ [''videos'', safe_filename nid @ ''.webm''])"

definition trace_file :: "path \<Rightarrow> string \<Rightarrow> path" where
  "trace_file artifacts_dir nid =
     Path (parts artifacts_dir @ [''traces'', safe_filename nid @ ''.zip''])"







text \<open>The five steps of a teardown, and the step a call belongs to. The configuration
  and directory calls, the read of \<open>page.video\<close> and the log lines belong to none.\<close>

datatype step = Diagnostics | ClosePage | FinalizeVideo | StopTracing | CloseContext

definition step_of :: "event \<Rightarrow> step option" where
  "step_of e =
     (case e of
        Called c \<Rightarrow>
          (case c of
             PageScreenshot _ \<Rightarrow> Some Diagnostics
           | AllureAttachPng _ \<Rightarrow> Some Diagnostics
           | PageContent \<Rightarrow> Some Diagnostics
           | AllureAttachHtml _ \<Rightarrow> Some Diagnostics
           | PageClose \<Rightarrow> Some ClosePage
           | VideoSaveAs _ _ \<Rightarrow> Some FinalizeVideo
           | AllureAttachFile _ \<Rightarrow> Some FinalizeVideo
           | VideoDelete _ \<Rightarrow> Some FinalizeVideo
           | TracingStop _ \<Rightarrow> Some StopTracing
           | ContextClose \<Rightarrow> Some CloseContext
           | _ \<Rightarrow> None)
      | Logged _ _ _ \<Rightarrow> None)"

definition steps :: "event list \<Rightarrow> step list" where
  "steps es = List.map_filter step_of es"

text \<open>The rank of a step in the order that the specification gives (diagnostics, close
  page, stop tracing, close context, finalize video) and in the order of the fixtures
  (diagnostics, close page, finalize video, stop tracing, close context).\<close>

fun specified_rank :: "step \<Rightarrow> nat" where
  "specified_rank Diagnostics = 0"
| "specified_rank ClosePage = 1"
| "specified_rank StopTracing = 2"
| "specified_rank CloseContext = 3"
| "specified_rank FinalizeVideo = 4"

fun fixture_rank :: "step \<Rightarrow> nat" where
  "fixture_rank Diagnostics = 0"
| "fixture_rank ClosePage = 1"
| "fixture_rank FinalizeVideo = 2"
| "fixture_rank StopTracing = 3"
| "fixture_rank CloseContext = 4"

definition in_order :: "(step \<Rightarrow> nat) \<Rightarrow> event list \<Rightarrow> bool" where
  "in_order rank es = sorted (map rank (steps es))"


section \<open>Example inputs\<close>

text \<open>A world in which no call raises, an artifact directory, three phase reports as
  pytest builds them, a test node with a setup and a call report, and a context with given
  flags before the page teardown has stored \<open>last_failed\<close>.\<close>

definition quiet :: world where
  "quiet = (\<lambda>_. False)"

definition artifacts :: path where
  "artifacts = Path [''artifacts'']"

definition passed_report :: report where
  "passed_report =
     \<lparr>rep_failed = Some False, rep_skipped = Some False, rep_outcome = Some ''passed''\<rparr>"

definition failed_report :: report where
  "failed_report =
     \<lparr>rep_failed = Some True, rep_skipped = Some False, rep_outcome = Some ''failed''\<rparr>"

definition skipped_report :: report where
  "skipped_report =
     \<lparr>rep_failed = Some False, rep_skipped = Some True, rep_outcome = Some ''skipped''\<rparr>"

definition example_node :: "report option \<Rightarrow> report option \<Rightarrow> node" where
  "example_node setup_rep call_rep =
     \<lparr>nodeid = ''tests/login::test[a/b]'', name = ''test[a/b]'',
      rep_setup = setup_rep, rep_call = call_rep, rep_teardown = None\<rparr>"

definition example_context :: "bool \<Rightarrow> bool \<Rightarrow> bool \<Rightarrow> bool \<Rightarrow> context_attrs" where
  "example_context rec keep tracing retain =
     \<lparr>record_video_enabled = rec, keep_video_on_pass = keep, trace_enabled = tracing,
      trace_retain_on_failure = retain, last_failed = False\<rparr>"


section \<open>Facts about the string operations\<close>

lemma isspace_lower_char: "py_isspace (py_lower_char c) = py_isspace c"
  unfolding py_isspace_def py_lower_char_def Let_def
  by (auto simp: of_char_of)

lemma lower_char_idem: "py_lower_char (py_lower_char c) = py_lower_char c"
  unfolding py_lower_char_def Let_def
  by (auto simp: of_char_of)

lemma py_lower_idem: "py_lower (py_lower s) = py_lower s"
  by (simp add: py_lower_def lower_char_idem)

lemma dropWhile_lower: "dropWhile py_isspace (py_lower s) = py_lower (dropWhile py_isspace s)"
  by (induction s) (simp_all add: py_lower_def isspace_lower_char)

lemma py_lower_rev: "py_lower (rev s) = rev (py_lower s)"
  by (simp add: py_lower_def rev_map)

lemma strip_lower_commute: "py_strip (py_lower s) = py_lower (py_strip s)"
  by (simp add: py_strip_def dropWhile_lower py_lower_rev[symmetric])

lemma dropWhile_fixed: "s = [] \<or> \<not> P (hd s) \<Longrightarrow> dropWhile P s = s"
  by (cases s) auto

lemma dropWhile_hd: "dropWhile P s = [] \<or> \<not> P (hd (dropWhile P s))"
  by (induction s) auto

lemma rev_drop_rev_hd:
  "rev (dropWhile P (rev s)) = [] \<or> hd (rev (dropWhile P (rev s))) = hd s"
proof (induction s rule: rev_induct)
  case Nil
  then show ?case by simp
next
  case (snoc x xs)
  then show ?case by (cases xs) auto
qed

lemma rev_drop_rev_Nil: "a = [] \<Longrightarrow> rev (dropWhile P (rev a)) = []"
  by simp

text \<open>Stripping a stripped string changes nothing: what is left starts and ends with a
  code point that is not white space.\<close>

lemma py_strip_idem: "py_strip (py_strip s) = py_strip s"
proof -
  let ?a = "dropWhile py_isspace s"
  let ?b = "rev (dropWhile py_isspace (rev ?a))"
  have "?b = [] \<or> \<not> py_isspace (hd ?b)"
  proof (cases "?b = []")
    case True
    then show ?thesis by simp
  next
    case False
    then have h: "hd ?b = hd ?a" using rev_drop_rev_hd[of py_isspace ?a] by blast
    from False have "?a \<noteq> []" using rev_drop_rev_Nil[of ?a py_isspace] by blast
    then have "\<not> py_isspace (hd ?a)" using dropWhile_hd[of py_isspace s] by blast
    then show ?thesis using h by simp
  qed
  then have 1: "dropWhile py_isspace ?b = ?b" by (rule dropWhile_fixed)
  have 2: "dropWhile py_isspace (rev ?b) = rev ?b"
    by (simp add: dropWhile_idem)
  show ?thesis unfolding py_strip_def 1 2 by simp
qed

lemma strip_lower_idem: "strip_lower (strip_lower s) = strip_lower s"
  by (simp add: strip_lower_def strip_lower_commute py_strip_idem py_lower_idem)


section \<open>Boolean parsing\<close>

lemma truthy_falsy_disjoint: "TRUTHY_VALUES \<inter> FALSY_VALUES = {}"
  by (simp add: TRUTHY_VALUES_def FALSY_VALUES_def)

lemma truthy_keep_disjoint: "TRUTHY_VALUES \<inter> VIDEO_KEEP_VALUES = {}"
  by (simp add: TRUTHY_VALUES_def VIDEO_KEEP_VALUES_def)

text \<open>The resolvers normalize an environment value before they hand it to \<open>_parse_bool\<close>,
  which normalizes again; the second pass has no effect.\<close>

lemma parse_bool_normalized: "parse_bool (Some (strip_lower v)) = parse_bool (Some v)"
  by (simp add: parse_bool_def strip_lower_idem)

lemma parse_bool_True_iff:
  "parse_bool (Some v) = Some True \<longleftrightarrow> strip_lower v \<in> TRUTHY_VALUES"
  by (simp add: parse_bool_def Let_def)

lemma parse_bool_None_iff:
  "parse_bool (Some v) = None
    \<longleftrightarrow> strip_lower v \<notin> TRUTHY_VALUES \<and> strip_lower v \<notin> FALSY_VALUES"
  by (simp add: parse_bool_def Let_def)

text \<open>
  C8. For every input string \<open>v\<close>, \<open>_parse_bool\<close> returns \<open>True\<close> when the trimmed,
  lower-cased value is one of 1, true, yes, on, enabled; it returns \<open>False\<close> when that value
  is one of 0, false, no, off, disabled; it returns the undecided value \<open>None\<close> for every
  other string, and for a missing input.
\<close>

theorem parse_bool_spec:
  "parse_bool None = None
   \<and> (strip_lower v \<in> TRUTHY_VALUES \<longrightarrow> parse_bool (Some v) = Some True)
   \<and> (strip_lower v \<in> FALSY_VALUES \<longrightarrow> parse_bool (Some v) = Some False)
   \<and> (strip_lower v \<notin> TRUTHY_VALUES \<and> strip_lower v \<notin> FALSY_VALUES
        \<longrightarrow> parse_bool (Some v) = None)"
proof -
  have "strip_lower v \<in> FALSY_VALUES \<Longrightarrow> strip_lower v \<notin> TRUTHY_VALUES"
    using truthy_falsy_disjoint by blast
  then show ?thesis by (auto simp: parse_bool_def Let_def)
qed

theorem parse_bool_spec_witness:
  "strip_lower '' YES '' \<in> TRUTHY_VALUES \<and> parse_bool (Some '' YES '') = Some True
   \<and> strip_lower ''Off'' \<in> FALSY_VALUES \<and> parse_bool (Some ''Off'') = Some False
   \<and> strip_lower ''keep'' \<notin> TRUTHY_VALUES \<and> strip_lower ''keep'' \<notin> FALSY_VALUES
   \<and> parse_bool (Some ''keep'') = None"
proof -
  have t: "strip_lower '' YES '' \<in> TRUTHY_VALUES" by code_simp
  have f: "strip_lower ''Off'' \<in> FALSY_VALUES" by code_simp
  have u: "strip_lower ''keep'' \<notin> TRUTHY_VALUES \<and> strip_lower ''keep'' \<notin> FALSY_VALUES"
    by code_simp
  show ?thesis
    using t f u parse_bool_spec [of "'' YES ''"] parse_bool_spec [of "''Off''"]
      parse_bool_spec [of "''keep''"]
    by simp
qed


section \<open>Trace preferences\<close>

lemma keep_values_normal: "v \<in> VIDEO_KEEP_VALUES \<Longrightarrow> strip_lower v = v"
  unfolding VIDEO_KEEP_VALUES_def
proof -
  have a: "strip_lower ''all'' = ''all''" by code_simp
  have b: "strip_lower ''always'' = ''always''" by code_simp
  have c: "strip_lower ''keep'' = ''keep''" by code_simp
  assume "v \<in> {''all'', ''always'', ''keep''}"
  then show ?thesis using a b c by auto
qed

lemma keep_not_bool:
  "v \<in> VIDEO_KEEP_VALUES \<Longrightarrow> v \<notin> TRUTHY_VALUES \<and> v \<notin> FALSY_VALUES \<and> v \<notin> TRACE_MODES"
  by (auto simp: VIDEO_KEEP_VALUES_def TRUTHY_VALUES_def FALSY_VALUES_def TRACE_MODES_def)

text \<open>A truthy value is never in the keep set, so the choice between
  \<open>retain-on-failure\<close> and \<open>on\<close> always falls on \<open>on\<close>.\<close>

lemma truthy_mode:
  "parse_bool (Some ev) = Some True \<Longrightarrow>
   (if strip_lower ev \<in> VIDEO_KEEP_VALUES then ''retain-on-failure'' else ''on'') = ''on''
   \<and> (if ev \<in> VIDEO_KEEP_VALUES then ''retain-on-failure'' else ''on'') = ''on''"
  using keep_not_bool[of ev] keep_not_bool[of "strip_lower ev"] keep_values_normal[of ev]
  by (auto simp: parse_bool_True_iff)

text \<open>
  C5. For every \<open>--pw-trace\<close> value \<open>cli_mode\<close> and every \<open>PLAYWRIGHT_TRACE\<close> value: when the
  variable is set and not empty and its trimmed, lower-cased value is a known mode, that
  mode replaces the command-line mode; otherwise, when the value parses to true, the mode
  becomes \<open>retain-on-failure\<close> if the string is in the keep set and \<open>on\<close> if not (stated for
  the raw string and for the normalized one); in the remaining cases the command-line mode
  stays. The preferences have \<open>enabled = (mode \<noteq> off)\<close> and
  \<open>retain_on_failure = (mode = retain-on-failure)\<close>.
\<close>

theorem resolve_trace_preferences_spec:
  "(nonempty env_trace = Some ev \<and> strip_lower ev \<in> TRACE_MODES
      \<longrightarrow> resolve_trace_mode cli_mode env_trace = strip_lower ev)
   \<and> (nonempty env_trace = Some ev \<and> strip_lower ev \<notin> TRACE_MODES
        \<and> parse_bool (Some ev) = Some True
      \<longrightarrow> resolve_trace_mode cli_mode env_trace
            = (if ev \<in> VIDEO_KEEP_VALUES then ''retain-on-failure'' else ''on'')
          \<and> resolve_trace_mode cli_mode env_trace
            = (if strip_lower ev \<in> VIDEO_KEEP_VALUES then ''retain-on-failure'' else ''on''))
   \<and> (nonempty env_trace = None
        \<or> (nonempty env_trace = Some ev \<and> strip_lower ev \<notin> TRACE_MODES
            \<and> parse_bool (Some ev) \<noteq> Some True)
      \<longrightarrow> resolve_trace_mode cli_mode env_trace = cli_mode)
   \<and> enabled (resolve_trace_preferences cli_mode env_trace)
       = (resolve_trace_mode cli_mode env_trace \<noteq> ''off'')
   \<and> retain_on_failure (resolve_trace_preferences cli_mode env_trace)
       = (resolve_trace_mode cli_mode env_trace = ''retain-on-failure'')"
proof -
  have 1: "nonempty env_trace = Some ev \<Longrightarrow> strip_lower ev \<in> TRACE_MODES
      \<Longrightarrow> resolve_trace_mode cli_mode env_trace = strip_lower ev"
    by (simp add: resolve_trace_mode_def)
  have 2: "nonempty env_trace = Some ev \<Longrightarrow> strip_lower ev \<notin> TRACE_MODES
      \<Longrightarrow> parse_bool (Some ev) = Some True
      \<Longrightarrow> resolve_trace_mode cli_mode env_trace
            = (if ev \<in> VIDEO_KEEP_VALUES then ''retain-on-failure'' else ''on'')
          \<and> resolve_trace_mode cli_mode env_trace
            = (if strip_lower ev \<in> VIDEO_KEEP_VALUES then ''retain-on-failure'' else ''on'')"
    using truthy_mode[of ev]
    by (simp add: resolve_trace_mode_def Let_def parse_bool_normalized)
  have 3: "nonempty env_trace = None \<Longrightarrow> resolve_trace_mode cli_mode env_trace = cli_mode"
    by (simp add: resolve_trace_mode_def)
  have 4: "nonempty env_trace = Some ev \<Longrightarrow> strip_lower ev \<notin> TRACE_MODES
      \<Longrightarrow> parse_bool (Some ev) \<noteq> Some True
      \<Longrightarrow> resolve_trace_mode cli_mode env_trace = cli_mode"
    by (simp add: resolve_trace_mode_def Let_def parse_bool_normalized)
  have 5: "enabled (resolve_trace_preferences cli_mode env_trace)
       = (resolve_trace_mode cli_mode env_trace \<noteq> ''off'')"
    by (simp add: resolve_trace_preferences_def Let_def)
  have 6: "retain_on_failure (resolve_trace_preferences cli_mode env_trace)
       = (resolve_trace_mode cli_mode env_trace = ''retain-on-failure'')"
    by (simp add: resolve_trace_preferences_def Let_def)
  show ?thesis
    apply (intro conjI impI)
    subgoal using 1 by blast
    subgoal using 2 by blast
    subgoal using 2 by blast
    subgoal using 3 4 by blast
    subgoal by (rule 5)
    subgoal by (rule 6)
    done
qed

theorem resolve_trace_preferences_spec_witness:
  "nonempty (Some ''Retain-On-Failure'') = Some ''Retain-On-Failure''
   \<and> strip_lower ''Retain-On-Failure'' \<in> TRACE_MODES
   \<and> resolve_trace_mode ''off'' (Some ''Retain-On-Failure'') = strip_lower ''Retain-On-Failure''
   \<and> nonempty (Some ''YES'') = Some ''YES''
   \<and> strip_lower ''YES'' \<notin> TRACE_MODES
   \<and> parse_bool (Some ''YES'') = Some True
   \<and> resolve_trace_mode ''off'' (Some ''YES'') = ''on''
   \<and> nonempty (Some []) = None
   \<and> resolve_trace_mode ''retain-on-failure'' (Some []) = ''retain-on-failure''"
proof -
  have a1: "nonempty (Some ''Retain-On-Failure'') = Some ''Retain-On-Failure''" by code_simp
  have a2: "strip_lower ''Retain-On-Failure'' \<in> TRACE_MODES" by code_simp
  have b1: "nonempty (Some ''YES'') = Some ''YES''" by code_simp
  have b2: "strip_lower ''YES'' \<notin> TRACE_MODES" by code_simp
  have b3: "parse_bool (Some ''YES'') = Some True" by code_simp
  have b4: "''YES'' \<notin> VIDEO_KEEP_VALUES" by code_simp
  have c1: "nonempty (Some []) = None" by code_simp
  show ?thesis
    using a1 a2 b1 b2 b3 b4 c1
      resolve_trace_preferences_spec [of "Some ''Retain-On-Failure''" "''Retain-On-Failure''" "''off''"]
      resolve_trace_preferences_spec [of "Some ''YES''" "''YES''" "''off''"]
      resolve_trace_preferences_spec [of "Some []" "[]" "''retain-on-failure''"]
    by simp
qed


section \<open>Video preferences\<close>

lemma keep_parse_None: "strip_lower ev \<in> VIDEO_KEEP_VALUES \<Longrightarrow> parse_bool (Some ev) = None"
  using keep_not_bool[of "strip_lower ev"] by (simp add: parse_bool_None_iff)

text \<open>
  C6. For every value of \<open>--video\<close>, \<open>--keep-video-on-pass\<close>, \<open>PLAYWRIGHT_VIDEO\<close> and
  \<open>PLAYWRIGHT_KEEP_VIDEO_ON_PASS\<close>: a \<open>PLAYWRIGHT_VIDEO\<close> that is set, not empty and parses
  to a boolean sets \<open>record\<close> to that boolean; one that the resolver reads (trimmed and
  lower-cased) as all, always or keep sets \<open>record\<close> and \<open>keep_on_pass\<close> to true; any other
  non-empty value sets \<open>record\<close> to true and leaves \<open>keep_on_pass\<close> at its command-line
  value; an unset or empty one leaves both. A \<open>PLAYWRIGHT_KEEP_VIDEO_ON_PASS\<close> that parses
  to a boolean then decides \<open>keep_on_pass\<close>, whatever it was before; the statements about
  \<open>keep_on_pass\<close> above are for the case that it does not parse.
\<close>

theorem resolve_video_preferences_spec:
  "(nonempty env_video = Some ev \<and> parse_bool (Some ev) = Some b
      \<longrightarrow> record_on (resolve_video_preferences cli_video cli_keep env_video env_keep) = b
          \<and> (parse_bool env_keep = None
              \<longrightarrow> keep_on_pass (resolve_video_preferences cli_video cli_keep env_video env_keep)
                    = cli_keep))
   \<and> (nonempty env_video = Some ev \<and> strip_lower ev \<in> VIDEO_KEEP_VALUES
      \<longrightarrow> record_on (resolve_video_preferences cli_video cli_keep env_video env_keep) = True
          \<and> (parse_bool env_keep = None
              \<longrightarrow> keep_on_pass (resolve_video_preferences cli_video cli_keep env_video env_keep)
                    = True))
   \<and> (nonempty env_video = Some ev \<and> parse_bool (Some ev) = None
        \<and> strip_lower ev \<notin> VIDEO_KEEP_VALUES
      \<longrightarrow> record_on (resolve_video_preferences cli_video cli_keep env_video env_keep) = True
          \<and> (parse_bool env_keep = None
              \<longrightarrow> keep_on_pass (resolve_video_preferences cli_video cli_keep env_video env_keep)
                    = cli_keep))
   \<and> (nonempty env_video = None
      \<longrightarrow> record_on (resolve_video_preferences cli_video cli_keep env_video env_keep) = cli_video
          \<and> (parse_bool env_keep = None
              \<longrightarrow> keep_on_pass (resolve_video_preferences cli_video cli_keep env_video env_keep)
                    = cli_keep))
   \<and> (parse_bool env_keep = Some k
      \<longrightarrow> keep_on_pass (resolve_video_preferences cli_video cli_keep env_video env_keep) = k)"
proof -
  let ?R = "resolve_video_preferences cli_video cli_keep env_video env_keep"
  have 1: "nonempty env_video = Some ev \<Longrightarrow> parse_bool (Some ev) = Some b
      \<Longrightarrow> record_on ?R = b \<and> (parse_bool env_keep = None \<longrightarrow> keep_on_pass ?R = cli_keep)"
    by (simp add: resolve_video_preferences_def Let_def parse_bool_normalized)
  have 2: "nonempty env_video = Some ev \<Longrightarrow> strip_lower ev \<in> VIDEO_KEEP_VALUES
      \<Longrightarrow> record_on ?R = True \<and> (parse_bool env_keep = None \<longrightarrow> keep_on_pass ?R = True)"
    using keep_parse_None[of ev]
    by (simp add: resolve_video_preferences_def Let_def parse_bool_normalized)
  have 3: "nonempty env_video = Some ev \<Longrightarrow> parse_bool (Some ev) = None
      \<Longrightarrow> strip_lower ev \<notin> VIDEO_KEEP_VALUES
      \<Longrightarrow> record_on ?R = True \<and> (parse_bool env_keep = None \<longrightarrow> keep_on_pass ?R = cli_keep)"
    by (simp add: resolve_video_preferences_def Let_def parse_bool_normalized)
  have 4: "nonempty env_video = None
      \<Longrightarrow> record_on ?R = cli_video \<and> (parse_bool env_keep = None \<longrightarrow> keep_on_pass ?R = cli_keep)"
    by (simp add: resolve_video_preferences_def Let_def)
  have 5: "parse_bool env_keep = Some k \<Longrightarrow> keep_on_pass ?R = k"
    by (simp add: resolve_video_preferences_def Let_def split: prod.splits)
  show ?thesis
    apply (intro conjI)
    subgoal using 1 by blast
    subgoal using 2 by blast
    subgoal using 3 by blast
    subgoal using 4 by blast
    subgoal using 5 by blast
    done
qed

theorem resolve_video_preferences_spec_witness:
  "nonempty (Some ''keep'') = Some ''keep'' \<and> strip_lower ''keep'' \<in> VIDEO_KEEP_VALUES
   \<and> parse_bool None = None
   \<and> record_on (resolve_video_preferences False False (Some ''keep'') None) = True
   \<and> keep_on_pass (resolve_video_preferences False False (Some ''keep'') None) = True
   \<and> nonempty (Some ''Off'') = Some ''Off'' \<and> parse_bool (Some ''Off'') = Some False
   \<and> record_on (resolve_video_preferences True True (Some ''Off'') None) = False
   \<and> keep_on_pass (resolve_video_preferences True True (Some ''Off'') None) = True
   \<and> nonempty (Some ''hd'') = Some ''hd'' \<and> parse_bool (Some ''hd'') = None
   \<and> strip_lower ''hd'' \<notin> VIDEO_KEEP_VALUES
   \<and> record_on (resolve_video_preferences False False (Some ''hd'') None) = True
   \<and> keep_on_pass (resolve_video_preferences False False (Some ''hd'') None) = False
   \<and> nonempty None = None
   \<and> record_on (resolve_video_preferences True False None None) = True
   \<and> parse_bool (Some ''no'') = Some False
   \<and> keep_on_pass (resolve_video_preferences False False (Some ''keep'') (Some ''no'')) = False"
proof -
  have a1: "nonempty (Some ''keep'') = Some ''keep''" by code_simp
  have a2: "strip_lower ''keep'' \<in> VIDEO_KEEP_VALUES" by code_simp
  have a3: "parse_bool None = None" by code_simp
  have b1: "nonempty (Some ''Off'') = Some ''Off''" by code_simp
  have b2: "parse_bool (Some ''Off'') = Some False" by code_simp
  have c1: "nonempty (Some ''hd'') = Some ''hd''" by code_simp
  have c2: "parse_bool (Some ''hd'') = None" by code_simp
  have c3: "strip_lower ''hd'' \<notin> VIDEO_KEEP_VALUES" by code_simp
  have d1: "nonempty None = None" by code_simp
  have e1: "parse_bool (Some ''no'') = Some False" by code_simp
  show ?thesis
    using a1 a2 a3 b1 b2 c1 c2 c3 d1 e1
      resolve_video_preferences_spec [of "Some ''keep''" "''keep''" _ False False None]
      resolve_video_preferences_spec [of "Some ''Off''" "''Off''" False True True None]
      resolve_video_preferences_spec [of "Some ''hd''" "''hd''" _ False False None]
      resolve_video_preferences_spec [of None _ _ True False None]
      resolve_video_preferences_spec [of "Some ''keep''" "''keep''" _ False False "Some ''no''" False]
    by simp
qed


section \<open>File names\<close>

text \<open>\<open>allowed_char\<close> is the class \<open>[A-Za-z0-9._-]\<close>.\<close>

lemma allowed_class:
  "allowed_char c \<longleftrightarrow> c \<in> set (''ABCDEFGHIJKLMNOPQRSTUVWXYZ'' @ ''abcdefghijklmnopqrstuvwxyz''
      @ ''0123456789'' @ ''._-'')"
  by (cases c) (simp add: allowed_char_def Let_def)

lemma underscore_allowed: "allowed_char CHR ''_''"
  by (simp add: allowed_char_def)

text \<open>
  C9. For every input string, \<open>safe_filename\<close> gives a string of the same length in which
  every position that held a character of the class \<open>[A-Za-z0-9._-]\<close> still holds it and
  every other position holds an underscore; so every character of the output is in the
  class.
\<close>

theorem safe_filename_spec:
  "length (safe_filename s) = length s
   \<and> (\<forall>i < length s.
         (allowed_char (s ! i) \<longrightarrow> safe_filename s ! i = s ! i)
         \<and> (\<not> allowed_char (s ! i) \<longrightarrow> safe_filename s ! i = CHR ''_''))
   \<and> (\<forall>c \<in> set (safe_filename s). allowed_char c)"
  using underscore_allowed by (auto simp: safe_filename_def)

theorem safe_filename_spec_witness:
  "safe_filename ''tests/login::test[a/b]'' = ''tests_login__test_a_b_''
   \<and> length (safe_filename ''tests/login::test[a/b]'') = length ''tests/login::test[a/b]''
   \<and> \<not> allowed_char (''tests/login::test[a/b]'' ! 5)
   \<and> safe_filename ''tests/login::test[a/b]'' ! 5 = CHR ''_''
   \<and> allowed_char (''tests/login::test[a/b]'' ! 0)
   \<and> safe_filename ''tests/login::test[a/b]'' ! 0 = ''tests/login::test[a/b]'' ! 0
   \<and> allowed_char (safe_filename ''tests/login::test[a/b]'' ! 5)"
proof -
  let ?s = "''tests/login::test[a/b]''"
  have v: "safe_filename ?s = ''tests_login__test_a_b_''" by code_simp
  have n5: "\<not> allowed_char (?s ! 5)" by code_simp
  have a0: "allowed_char (?s ! 0)" by code_simp
  have l5: "(5::nat) < length ?s" and l0: "(0::nat) < length ?s" by simp_all
  have m: "safe_filename ?s ! 5 \<in> set (safe_filename ?s)"
    unfolding v by simp
  from safe_filename_spec [of ?s]
  have len: "length (safe_filename ?s) = length ?s"
    and pos: "\<forall>i < length ?s.
         (allowed_char (?s ! i) \<longrightarrow> safe_filename ?s ! i = ?s ! i)
         \<and> (\<not> allowed_char (?s ! i) \<longrightarrow> safe_filename ?s ! i = CHR ''_'')"
    and cls: "\<forall>c \<in> set (safe_filename ?s). allowed_char c"
    by blast+
  from pos l5 n5 have p5: "safe_filename ?s ! 5 = CHR ''_''" by blast
  from pos l0 a0 have p0: "safe_filename ?s ! 0 = ?s ! 0" by blast
  from cls m have c5: "allowed_char (safe_filename ?s ! 5)" by blast
  show ?thesis using v len n5 p5 a0 p0 c5 by blast
qed

section \<open>The invariant of the trace preferences\<close>

text \<open>The mode is matched after trimming and lower-casing: with \<open>--pw-trace=off\<close> and
  \<open>PLAYWRIGHT_TRACE=RETAIN-ON-FAILURE\<close> the flag \<open>retain_on_failure\<close> is set, though
  neither string is \<open>retain-on-failure\<close> letter for letter.\<close>

theorem trace_retain_literal_counterexample:
  "retain_on_failure (resolve_trace_preferences ''off'' (Some ''RETAIN-ON-FAILURE''))
   \<and> ''off'' \<noteq> ''retain-on-failure''
   \<and> ''RETAIN-ON-FAILURE'' \<noteq> ''retain-on-failure''"
  by code_simp

lemma keep_mode_unchanged:
  "nonempty env_trace = Some ev \<Longrightarrow> strip_lower ev \<in> VIDEO_KEEP_VALUES
    \<Longrightarrow> resolve_trace_mode cli_mode env_trace = cli_mode"
  using keep_not_bool[of "strip_lower ev"]
  by (simp add: resolve_trace_mode_def Let_def parse_bool_normalized parse_bool_True_iff)

lemma mode_cases:
  "resolve_trace_mode cli_mode env_trace = cli_mode
   \<or> resolve_trace_mode cli_mode env_trace = ''on''
   \<or> map_option strip_lower (nonempty env_trace) = Some (resolve_trace_mode cli_mode env_trace)"
proof (cases "nonempty env_trace")
  case None
  then show ?thesis by (simp add: resolve_trace_mode_def)
next
  case (Some ev)
  show ?thesis
  proof (cases "strip_lower ev \<in> TRACE_MODES")
    case True
    with Some show ?thesis by (simp add: resolve_trace_mode_def)
  next
    case False
    show ?thesis
    proof (cases "parse_bool (Some ev) = Some True")
      case True
      with Some False truthy_mode[of ev] show ?thesis
        by (simp add: resolve_trace_mode_def Let_def parse_bool_normalized)
    next
      case no: False
      with Some False show ?thesis
        by (simp add: resolve_trace_mode_def Let_def parse_bool_normalized)
    qed
  qed
qed

text \<open>
  C10, as amended. For every \<open>--pw-trace\<close> value and every \<open>PLAYWRIGHT_TRACE\<close> value,
  \<open>retain_on_failure\<close> implies \<open>enabled\<close>. The truthy set and the keep set are disjoint, so
  a value that reads as all, always or keep leaves the command-line mode as it is. And
  \<open>retain_on_failure\<close> holds only when the command-line mode is \<open>retain-on-failure\<close> or
  the environment value, set, not empty, trimmed and lower-cased, is \<open>retain-on-failure\<close>.
\<close>

theorem trace_retain_invariant:
  "(retain_on_failure (resolve_trace_preferences cli_mode env_trace)
      \<longrightarrow> enabled (resolve_trace_preferences cli_mode env_trace))
   \<and> TRUTHY_VALUES \<inter> VIDEO_KEEP_VALUES = {}
   \<and> (nonempty env_trace = Some ev \<and> strip_lower ev \<in> VIDEO_KEEP_VALUES
      \<longrightarrow> resolve_trace_mode cli_mode env_trace = cli_mode)
   \<and> (retain_on_failure (resolve_trace_preferences cli_mode env_trace)
      \<longrightarrow> cli_mode = ''retain-on-failure''
          \<or> map_option strip_lower (nonempty env_trace) = Some ''retain-on-failure'')"
proof -
  have 1: "retain_on_failure (resolve_trace_preferences cli_mode env_trace)
      \<Longrightarrow> enabled (resolve_trace_preferences cli_mode env_trace)"
    by (simp add: resolve_trace_preferences_def Let_def)
  have 4: "retain_on_failure (resolve_trace_preferences cli_mode env_trace)
      \<Longrightarrow> cli_mode = ''retain-on-failure''
          \<or> map_option strip_lower (nonempty env_trace) = Some ''retain-on-failure''"
    using mode_cases[of cli_mode env_trace]
    by (auto simp: resolve_trace_preferences_def Let_def)
  show ?thesis
    using 1 4 truthy_keep_disjoint keep_mode_unchanged[of env_trace ev cli_mode] by blast
qed

theorem trace_retain_invariant_witness:
  "retain_on_failure (resolve_trace_preferences ''off'' (Some '' Retain-On-Failure''))
   \<and> enabled (resolve_trace_preferences ''off'' (Some '' Retain-On-Failure''))
   \<and> map_option strip_lower (nonempty (Some '' Retain-On-Failure'')) = Some ''retain-on-failure''
   \<and> nonempty (Some ''keep'') = Some ''keep'' \<and> strip_lower ''keep'' \<in> VIDEO_KEEP_VALUES
   \<and> resolve_trace_mode ''on'' (Some ''keep'') = ''on''"
proof -
  have r: "retain_on_failure (resolve_trace_preferences ''off'' (Some '' Retain-On-Failure''))"
    by code_simp
  have k1: "nonempty (Some ''keep'') = Some ''keep''" by code_simp
  have k2: "strip_lower ''keep'' \<in> VIDEO_KEEP_VALUES" by code_simp
  show ?thesis
    using r k1 k2
      trace_retain_invariant [of "''off''" "Some '' Retain-On-Failure''"]
      trace_retain_invariant [of "''on''" "Some ''keep''" "''keep''"]
    by simp
qed


section \<open>Facts about runs\<close>

lemma and_then_Inl: "and_then (es, Inl x) f = (es, Inl x)"
  by (simp add: and_then_def)

lemma and_then_Inr: "and_then (es, Inr a) f = (es @ fst (f a), snd (f a))"
  by (simp add: and_then_def split: prod.splits)

lemma and_then_ret: "and_then (ret a) f = f a"
  by (simp add: and_then_def ret_def split: prod.splits)

lemma and_then_assoc:
  "and_then (and_then m f) g = and_then m (\<lambda>a. and_then (f a) g)"
  by (cases m; cases "snd m") (auto simp: and_then_def split: prod.splits sum.splits)

lemma and_then_invoke:
  "and_then (invoke raises c) f =
     (if raises c then ([Called c], Inl (Raised c))
      else (Called c # fst (f ()), snd (f ())))"
  by (simp add: and_then_def invoke_def split: prod.splits)

lemma get_artifact_path_ok:
  "\<not> raises GetAppConfig \<Longrightarrow>
   get_artifact_path raises adir t = ([Called GetAppConfig], Inr (joinpath adir t))"
  by (simp add: get_artifact_path_def and_then_invoke ret_def)

lemma video_file_join:
  "joinpath (joinpath adir ''videos'') (safe_filename nid @ ''.webm'') = video_file adir nid"
  by (simp add: joinpath_def video_file_def)

lemma parent_joinpath: "parent (joinpath p s) = p"
  by (cases p) (simp add: parent_def joinpath_def)

lemma parent_video_file: "parent (video_file adir nid) = joinpath adir ''videos''"
  by (simp add: parent_def video_file_def joinpath_def butlast_append)

lemma finalize_none: "finalize_video_artifact raises adir None nid keep attach = ([], Inr None)"
  by (simp add: finalize_video_artifact_def ret_def)

lemma finalize_discard:
  "finalize_video_artifact raises adir (Some v) nid False attach =
     ([Called (VideoDelete v)],
      if raises (VideoDelete v) then Inl (Raised (VideoDelete v)) else Inr None)"
  by (simp add: finalize_video_artifact_def and_then_invoke ret_def)

lemma finalize_keep_ok:
  assumes "\<not> raises GetAppConfig"
    and "\<not> raises (EnsureDir (joinpath adir ''videos''))"
    and "\<not> raises (VideoSaveAs v (video_file adir nid))"
    and "\<not> raises (AllureAttachFile (video_file adir nid))"
    and "\<not> raises (VideoDelete v)"
  shows "finalize_video_artifact raises adir (Some v) nid True attach =
     ([Called GetAppConfig, Called (EnsureDir (joinpath adir ''videos'')),
       Called (VideoSaveAs v (video_file adir nid))]
      @ (if attach then [Called (AllureAttachFile (video_file adir nid))] else [])
      @ [Called (VideoDelete v)],
      Inr (Some (video_file adir nid)))"
  using assms
  by (simp add: finalize_video_artifact_def get_artifact_path_ok and_then_Inr Let_def
      video_file_join parent_video_file ensure_dir_def and_then_invoke ret_def and_then_ret)

lemma and_then_total: "snd m = Inr a \<Longrightarrow> and_then m f = (fst m @ fst (f a), snd (f a))"
  by (cases m) (simp add: and_then_def split: prod.splits)

lemma try_except_invoke:
  "try_except (invoke raises c) h =
     (if raises c then (Called c # fst (h (Raised c)), snd (h (Raised c)))
      else ([Called c], Inr ()))"
  by (simp add: try_except_def invoke_def split: prod.splits)

lemma try_except_log_total: "\<exists>u. snd (try_except m (\<lambda>x. log level msg x)) = Inr u"
  by (cases m; cases "snd m") (auto simp: try_except_def log_def split: sum.splits)

lemma capture_diagnostics_total: "snd (capture_diagnostics raises adir n) = Inr ()"
proof -
  obtain u where "snd (try_except
          (and_then (and_then (get_artifact_path raises adir ''screenshots'')
                       (ensure_dir raises)) (\<lambda>screenshots_dir.
             let screenshot_path = joinpath screenshots_dir (safe_filename (nodeid n) @ ''.png'')
             in and_then (invoke raises (PageScreenshot screenshot_path)) (\<lambda>_.
                invoke raises (AllureAttachPng (''screenshot-'' @ name n)))))
          (\<lambda>x. log Error ''Failed to capture screenshot: %s'' x)) = Inr u"
    using try_except_log_total by blast
  then show ?thesis
    unfolding capture_diagnostics_def
    using try_except_log_total[of "and_then (invoke raises PageContent) (\<lambda>_.
                  invoke raises (AllureAttachHtml (''dom-'' @ name n @ ''.html'')))" Error
                  "''Failed to capture HTML: %s''"]
    by (auto simp: and_then_total)
qed

lemma fetch_video:
  "try_except (and_then (invoke raises PageVideo) (\<lambda>_. ret pv)) (\<lambda>_. ret None) =
     ([Called PageVideo], Inr (if raises PageVideo then None else pv))"
  by (simp add: try_except_def and_then_invoke ret_def)

lemma close_page:
  "try_except (invoke raises PageClose) (\<lambda>x. log Warning msg x) =
     (Called PageClose # (if raises PageClose then [Logged Warning msg (Raised PageClose)] else []),
      Inr ())"
  by (simp add: try_except_invoke log_def)

text \<open>The shape of the page teardown: diagnostics, the read of the video attribute, the
  close of the page, then the finalizer on the handle that was read.\<close>

lemma page_teardown_shape:
  "snd (page_teardown raises adir ctx n pv) =
     (fst (if failed_any n \<or> skipped_any n then capture_diagnostics raises adir n else ret ())
      @ [Called PageVideo]
      @ (Called PageClose #
          (if raises PageClose
           then [Logged Warning ''Error closing page: %s'' (Raised PageClose)] else []))
      @ fst (if record_video_enabled ctx then
               finalize_video_artifact raises adir (if raises PageVideo then None else pv)
                 (nodeid n) (failed_any n \<or> skipped_any n \<or> keep_video_on_pass ctx)
                 (failed_any n \<or> skipped_any n)
             else if (if raises PageVideo then None else pv) \<noteq> None then
               finalize_video_artifact raises adir (if raises PageVideo then None else pv)
                 (nodeid n) False False
             else ret None),
      snd (if record_video_enabled ctx then
               finalize_video_artifact raises adir (if raises PageVideo then None else pv)
                 (nodeid n) (failed_any n \<or> skipped_any n \<or> keep_video_on_pass ctx)
                 (failed_any n \<or> skipped_any n)
             else if (if raises PageVideo then None else pv) \<noteq> None then
               finalize_video_artifact raises adir (if raises PageVideo then None else pv)
                 (nodeid n) False False
             else ret None))"
proof -
  have d: "snd (if failed_any n \<or> skipped_any n then capture_diagnostics raises adir n
                else ret ()) = Inr ()"
    by (simp add: capture_diagnostics_total ret_def)
  show ?thesis
    unfolding page_teardown_def Let_def snd_conv
    by (simp only: and_then_total[OF d] fetch_video close_page and_then_Inr fst_conv snd_conv
        append_assoc append_Cons append_Nil)
qed


text \<open>The step of a call, and the steps of a list of events.\<close>

lemma step_of_video:
  "step_of (Called (VideoSaveAs v p)) = Some FinalizeVideo"
  "step_of (Called (AllureAttachFile p)) = Some FinalizeVideo"
  "step_of (Called (VideoDelete v)) = Some FinalizeVideo"
  by (simp_all add: step_of_def)

lemma step_of_simps:
  "step_of (Called GetAppConfig) = None"
  "step_of (Called (TracingStop c)) = Some StopTracing"
  "step_of (Called ContextClose) = Some CloseContext"
  "step_of (Called PageClose) = Some ClosePage"
  "step_of (Called PageVideo) = None"
  "step_of (Logged l m x) = None"
  by (simp_all add: step_of_def)

lemma steps_Nil: "steps [] = []"
  by (simp add: steps_def List.map_filter_def)

lemma steps_Cons:
  "steps (e # es) = (case step_of e of None \<Rightarrow> steps es | Some s \<Rightarrow> s # steps es)"
  by (simp add: steps_def List.map_filter_def split: option.splits)

lemma steps_append: "steps (xs @ ys) = steps xs @ steps ys"
  by (simp add: steps_def List.map_filter_def)

lemmas steps_simps = step_of_video step_of_simps steps_Nil steps_Cons steps_append


section \<open>The outcome of a test\<close>

lemma is_skipped_iff:
  "is_skipped rep \<longleftrightarrow> rep_skipped rep = Some True \<or> rep_outcome rep = Some ''skipped''"
  by (auto simp: is_skipped_def split: option.splits)

lemma present_reports_set:
  "rep \<in> set (present_reports n) \<longleftrightarrow> Some rep \<in> {rep_setup n, rep_call n, rep_teardown n}"
  by (auto simp: present_reports_def List.map_filter_def)

text \<open>
  C3, as amended. For every test, \<open>skipped_any\<close> holds exactly when one of the phase reports
  that exist is marked skipped (its \<open>skipped\<close> attribute is true or its outcome is
  \<open>skipped\<close>). A failed setup with no call report does not make it hold: when the setup
  report is failed and not skipped, the call report is absent and the teardown report is
  absent or not skipped, \<open>skipped_any\<close> is false and \<open>failed_any\<close> is true.
\<close>

theorem skipped_any_spec:
  "(skipped_any n \<longleftrightarrow>
      (\<exists>rep. Some rep \<in> {rep_setup n, rep_call n, rep_teardown n}
         \<and> (rep_skipped rep = Some True \<or> rep_outcome rep = Some ''skipped'')))
   \<and> (rep_call n = None \<and> rep_setup n = Some s \<and> is_failed s \<and> \<not> is_skipped s
        \<and> (rep_teardown n = None \<or> (\<exists>t. rep_teardown n = Some t \<and> \<not> is_skipped t))
      \<longrightarrow> \<not> skipped_any n \<and> failed_any n)"
proof -
  have 1: "skipped_any n \<longleftrightarrow>
      (\<exists>rep. Some rep \<in> {rep_setup n, rep_call n, rep_teardown n}
         \<and> (rep_skipped rep = Some True \<or> rep_outcome rep = Some ''skipped''))"
    by (auto simp: skipped_any_def list_ex_iff present_reports_set is_skipped_iff)
  have 2: "rep_call n = None \<Longrightarrow> rep_setup n = Some s \<Longrightarrow> is_failed s \<Longrightarrow> \<not> is_skipped s
        \<Longrightarrow> rep_teardown n = None \<or> (\<exists>t. rep_teardown n = Some t \<and> \<not> is_skipped t)
        \<Longrightarrow> \<not> skipped_any n \<and> failed_any n"
    by (auto simp: skipped_any_def failed_any_def list_ex_iff present_reports_set)
  show ?thesis using 1 2 by blast
qed

text \<open>The test whose setup failed, with no call report and no report marked skipped:
  \<open>skipped_any\<close> is false.\<close>

theorem setup_failed_not_skipped_counterexample:
  "rep_call (example_node (Some failed_report) None) = None
   \<and> rep_setup (example_node (Some failed_report) None) = Some failed_report
   \<and> rep_teardown (example_node (Some failed_report) None) = None
   \<and> is_failed failed_report
   \<and> \<not> is_skipped failed_report
   \<and> \<not> skipped_any (example_node (Some failed_report) None)"
  by (simp add: skipped_any_def present_reports_def List.map_filter_def is_skipped_def
      is_failed_def example_node_def failed_report_def)

theorem skipped_any_spec_witness:
  "skipped_any (example_node (Some passed_report) (Some skipped_report))
   \<and> rep_call (example_node (Some failed_report) None) = None
   \<and> rep_setup (example_node (Some failed_report) None) = Some failed_report
   \<and> is_failed failed_report \<and> \<not> is_skipped failed_report
   \<and> rep_teardown (example_node (Some failed_report) None) = None
   \<and> \<not> skipped_any (example_node (Some failed_report) None)
   \<and> failed_any (example_node (Some failed_report) None)"
proof -
  have a: "Some skipped_report \<in> {rep_setup (example_node (Some passed_report) (Some skipped_report)),
             rep_call (example_node (Some passed_report) (Some skipped_report)),
             rep_teardown (example_node (Some passed_report) (Some skipped_report))}"
    by (simp add: example_node_def)
  have b: "rep_skipped skipped_report = Some True" by (simp add: skipped_report_def)
  have c: "rep_call (example_node (Some failed_report) None) = None"
    "rep_setup (example_node (Some failed_report) None) = Some failed_report"
    "rep_teardown (example_node (Some failed_report) None) = None"
    by (simp_all add: example_node_def)
  have d: "is_failed failed_report" "\<not> is_skipped failed_report"
    by (simp_all add: is_failed_def is_skipped_def failed_report_def)
  from skipped_any_spec [of "example_node (Some passed_report) (Some skipped_report)"] a b
  have 1: "skipped_any (example_node (Some passed_report) (Some skipped_report))" by blast
  from skipped_any_spec [of "example_node (Some failed_report) None" failed_report] c d
  have 2: "\<not> skipped_any (example_node (Some failed_report) None)
           \<and> failed_any (example_node (Some failed_report) None)" by blast
  show ?thesis using 1 2 c d by blast
qed


section \<open>The video decision of the page fixture\<close>

lemma capture_diagnostics_steps:
  "e \<in> set (fst (capture_diagnostics raises adir n))
    \<Longrightarrow> step_of e = None \<or> step_of e = Some Diagnostics"
  unfolding capture_diagnostics_def get_artifact_path_def ensure_dir_def and_then_def
    try_except_def invoke_def log_def ret_def Let_def
  by (auto simp: step_of_def split: if_splits prod.splits sum.splits)

lemma prelude_steps:
  "e \<in> set (fst (if c then capture_diagnostics raises adir n else ret ()))
    \<Longrightarrow> step_of e = None \<or> step_of e = Some Diagnostics"
  using capture_diagnostics_steps by (cases c) (auto simp: ret_def)

lemma finalize_steps:
  "e \<in> set (fst (finalize_video_artifact raises adir vo nid keep attach))
    \<Longrightarrow> step_of e = None \<or> step_of e = Some FinalizeVideo"
  unfolding finalize_video_artifact_def get_artifact_path_def ensure_dir_def and_then_def
    invoke_def ret_def Let_def
  by (auto simp: step_of_def split: if_splits prod.splits sum.splits option.splits)

lemma video_event_in_page_teardown:
  assumes "step_of e = Some FinalizeVideo"
  shows "e \<in> set (fst (snd (page_teardown raises adir ctx n pv)))
     \<longleftrightarrow> e \<in> set (fst (if record_video_enabled ctx then
               finalize_video_artifact raises adir (if raises PageVideo then None else pv)
                 (nodeid n) (failed_any n \<or> skipped_any n \<or> keep_video_on_pass ctx)
                 (failed_any n \<or> skipped_any n)
             else if (if raises PageVideo then None else pv) \<noteq> None then
               finalize_video_artifact raises adir (if raises PageVideo then None else pv)
                 (nodeid n) False False
             else ret None))"
proof -
  have 1: "e \<notin> set (fst (if failed_any n \<or> skipped_any n
                          then capture_diagnostics raises adir n else ret ()))"
    using prelude_steps[of e] assms by fastforce
  have 2: "e \<noteq> Called PageVideo" "e \<noteq> Called PageClose"
    "e \<noteq> Logged Warning ''Error closing page: %s'' (Raised PageClose)"
    using assms by (auto simp: step_of_def)
  show ?thesis
    unfolding page_teardown_shape fst_conv using 1 2 by auto
qed

text \<open>
  C1. For every page teardown with video recording enabled and a video handle \<open>v\<close> read
  from the page, in which the calls of the finalizer return normally: the video is saved
  to \<open><artifacts>/videos/<sanitized nodeid>.webm\<close>, and the finalizer returns that path,
  if and only if \<open>failed_any\<close> or \<open>skipped_any\<close> or \<open>keep_video_on_pass\<close> holds; the saved file
  is attached to the report if and only if \<open>failed_any\<close> or \<open>skipped_any\<close> holds; when the
  video is not kept the handle is deleted and the finalizer returns \<open>None\<close>; and the handle
  is saved to no other path.
\<close>

theorem page_video_decision:
  assumes "record_video_enabled ctx"
    and "page_video = Some v" and "\<not> raises PageVideo"
    and "\<not> raises GetAppConfig"
    and "\<not> raises (EnsureDir (joinpath adir ''videos''))"
    and "\<not> raises (VideoSaveAs v (video_file adir (nodeid n)))"
    and "\<not> raises (AllureAttachFile (video_file adir (nodeid n)))"
    and "\<not> raises (VideoDelete v)"
  shows "(Called (VideoSaveAs v (video_file adir (nodeid n)))
            \<in> set (fst (snd (page_teardown raises adir ctx n page_video)))
          \<longleftrightarrow> failed_any n \<or> skipped_any n \<or> keep_video_on_pass ctx)
    \<and> (snd (snd (page_teardown raises adir ctx n page_video))
          = Inr (Some (video_file adir (nodeid n)))
          \<longleftrightarrow> failed_any n \<or> skipped_any n \<or> keep_video_on_pass ctx)
    \<and> (Called (AllureAttachFile (video_file adir (nodeid n)))
            \<in> set (fst (snd (page_teardown raises adir ctx n page_video)))
          \<longleftrightarrow> failed_any n \<or> skipped_any n)
    \<and> (\<not> (failed_any n \<or> skipped_any n \<or> keep_video_on_pass ctx)
          \<longrightarrow> Called (VideoDelete v) \<in> set (fst (snd (page_teardown raises adir ctx n page_video)))
              \<and> snd (snd (page_teardown raises adir ctx n page_video)) = Inr None)
    \<and> (\<forall>p. Called (VideoSaveAs v p) \<in> set (fst (snd (page_teardown raises adir ctx n page_video)))
          \<longrightarrow> p = video_file adir (nodeid n))"
proof -
  let ?es = "fst (snd (page_teardown raises adir ctx n page_video))"
  let ?r = "snd (snd (page_teardown raises adir ctx n page_video))"
  let ?keep = "failed_any n \<or> skipped_any n \<or> keep_video_on_pass ctx"
  let ?fin = "finalize_video_artifact raises adir (Some v) (nodeid n) ?keep
                (failed_any n \<or> skipped_any n)"
  have ev: "step_of e = Some FinalizeVideo \<Longrightarrow> e \<in> set ?es \<longleftrightarrow> e \<in> set (fst ?fin)" for e
    using assms(1-3) by (simp add: video_event_in_page_teardown)
  have res: "?r = snd ?fin"
    using assms(1-3) by (simp add: page_teardown_shape)
  have save: "Called (VideoSaveAs v p) \<in> set ?es \<longleftrightarrow> Called (VideoSaveAs v p) \<in> set (fst ?fin)"
    for p by (rule ev) (simp add: step_of_video)
  have att: "Called (AllureAttachFile p) \<in> set ?es \<longleftrightarrow> Called (AllureAttachFile p) \<in> set (fst ?fin)"
    for p by (rule ev) (simp add: step_of_video)
  have del: "Called (VideoDelete v) \<in> set ?es \<longleftrightarrow> Called (VideoDelete v) \<in> set (fst ?fin)"
    by (rule ev) (simp add: step_of_video)
  show ?thesis
  proof (cases ?keep)
    case True
    have fin: "?fin =
       ([Called GetAppConfig, Called (EnsureDir (joinpath adir ''videos'')),
         Called (VideoSaveAs v (video_file adir (nodeid n)))]
        @ (if failed_any n \<or> skipped_any n
           then [Called (AllureAttachFile (video_file adir (nodeid n)))] else [])
        @ [Called (VideoDelete v)],
        Inr (Some (video_file adir (nodeid n))))"
      using finalize_keep_ok[OF assms(4-8), of "failed_any n \<or> skipped_any n"] True by simp
    show ?thesis
      unfolding save att del res fin using True by auto
  next
    case False
    have fin: "?fin = ([Called (VideoDelete v)], Inr None)"
      using finalize_discard[of raises adir v "nodeid n"] assms(8) False by simp
    show ?thesis
      unfolding save att del res fin using False by auto
  qed
qed

theorem page_video_decision_witness:
  "record_video_enabled (example_context True True False False)
   \<and> \<not> failed_any (example_node (Some passed_report) (Some passed_report))
   \<and> \<not> skipped_any (example_node (Some passed_report) (Some passed_report))
   \<and> keep_video_on_pass (example_context True True False False)
   \<and> Called (VideoSaveAs 7 (video_file artifacts ''tests/login::test[a/b]''))
        \<in> set (fst (snd (page_teardown quiet artifacts (example_context True True False False)
                          (example_node (Some passed_report) (Some passed_report)) (Some 7))))
   \<and> snd (snd (page_teardown quiet artifacts (example_context True True False False)
                 (example_node (Some passed_report) (Some passed_report)) (Some 7)))
        = Inr (Some (video_file artifacts ''tests/login::test[a/b]''))
   \<and> Called (AllureAttachFile (video_file artifacts ''tests/login::test[a/b]''))
        \<notin> set (fst (snd (page_teardown quiet artifacts (example_context True True False False)
                          (example_node (Some passed_report) (Some passed_report)) (Some 7))))
   \<and> \<not> keep_video_on_pass (example_context True False False False)
   \<and> Called (VideoDelete 7)
        \<in> set (fst (snd (page_teardown quiet artifacts (example_context True False False False)
                          (example_node (Some passed_report) (Some passed_report)) (Some 7))))
   \<and> snd (snd (page_teardown quiet artifacts (example_context True False False False)
                 (example_node (Some passed_report) (Some passed_report)) (Some 7)))
        = Inr None"
proof -
  let ?n = "example_node (Some passed_report) (Some passed_report)"
  have nid: "nodeid ?n = ''tests/login::test[a/b]''" by (simp add: example_node_def)
  have f: "\<not> failed_any ?n" "\<not> skipped_any ?n"
    by (simp_all add: failed_any_def skipped_any_def present_reports_def List.map_filter_def
        example_node_def passed_report_def is_failed_def is_skipped_def)
  have k: "record_video_enabled (example_context True True False False)"
    "keep_video_on_pass (example_context True True False False)"
    "record_video_enabled (example_context True False False False)"
    "\<not> keep_video_on_pass (example_context True False False False)"
    by (simp_all add: example_context_def)
  have q: "\<not> quiet c" for c by (simp add: quiet_def)
  note kept = page_video_decision [OF k(1) refl q q q q q q, of 7 artifacts ?n]
  note dropped = page_video_decision [OF k(3) refl q q q q q q, of 7 artifacts ?n]
  show ?thesis using kept dropped f k unfolding nid by simp
qed


section \<open>The calls on a video handle\<close>













section \<open>The context teardown\<close>

lemma trace_file_join:
  "joinpath (joinpath adir ''traces'') (safe_filename nid @ ''.zip'') = trace_file adir nid"
  by (simp add: joinpath_def trace_file_def)

lemma trace_path_run:
  "trace_path raises adir nid =
     ([Called GetAppConfig],
      if raises GetAppConfig then Inl (Raised GetAppConfig) else Inr (trace_file adir nid))"
  by (simp add: trace_path_def get_artifact_path_def invoke_def ret_def and_then_def
      trace_file_join)

text \<open>The run of the context teardown when tracing was started, written out.\<close>

lemma context_teardown_started:
  assumes "trace_enabled ctx"
  shows "context_teardown raises adir (Some ctx) True n =
    ((if trace_retain_on_failure ctx \<and> \<not> last_failed ctx then
        Called (TracingStop None) #
          (if raises (TracingStop None)
           then [Logged Warning ''Failed to stop tracing for %s: %s'' (Raised (TracingStop None))]
           else [])
      else if raises GetAppConfig then
        [Called GetAppConfig,
         Logged Warning ''Failed to stop tracing for %s: %s'' (Raised GetAppConfig)]
      else
        [Called GetAppConfig, Called (TracingStop (Some (trace_file adir (nodeid n))))]
        @ (if raises (TracingStop (Some (trace_file adir (nodeid n))))
           then [Logged Warning ''Failed to stop tracing for %s: %s''
                   (Raised (TracingStop (Some (trace_file adir (nodeid n)))))]
           else []))
     @ Called ContextClose #
         (if raises ContextClose
          then [Logged Warning ''Failed to close context for %s: %s'' (Raised ContextClose)]
          else []),
     Inr ())"
  using assms
  by (simp add: context_teardown_def trace_path_run try_except_invoke log_def and_then_def
      try_except_def invoke_def)

lemma context_teardown_not_started:
  "\<not> (trace_enabled ctx \<and> started) \<Longrightarrow>
   context_teardown raises adir (Some ctx) started n =
    (Called ContextClose #
         (if raises ContextClose
          then [Logged Warning ''Failed to close context for %s: %s'' (Raised ContextClose)]
          else []),
     Inr ())"
  by (auto simp: context_teardown_def try_except_invoke log_def and_then_def ret_def)

text \<open>What the context fixture yields: the flags are the preferences, no failure is
  recorded yet, and tracing counts as started exactly when it is enabled.\<close>

lemma context_setup_yield:
  assumes "context_setup raises adir prefs n = (es, Inr (ctx, started))"
  shows "started = trace_enabled ctx
    \<and> trace_enabled ctx = enabled (trace prefs)
    \<and> trace_retain_on_failure ctx = retain_on_failure (trace prefs)
    \<and> record_video_enabled ctx = record_on (video prefs)
    \<and> keep_video_on_pass ctx = keep_on_pass (video prefs)
    \<and> \<not> last_failed ctx"
  using assms
  unfolding context_setup_def Let_def and_then_def get_artifact_path_def ensure_dir_def
    invoke_def ret_def
  by (auto split: if_splits prod.splits sum.splits)

text \<open>
  C7. For every context teardown where tracing was started (the context exists, tracing is
  enabled and \<open>tracing_started\<close> is set): if \<open>trace_retain_on_failure\<close> is set and
  \<open>last_failed\<close> is not, tracing is stopped without a path, and with no path at all;
  otherwise, when the artifact directory can be resolved, tracing is stopped with the path
  \<open><artifacts>/traces/<sanitized nodeid>.zip\<close> and not without one. A stop call that raises
  is logged as a warning, and so is a failure to resolve the directory; the teardown never
  raises. The close of the context is attempted in every case, after the stop and as the
  last step, and a close that raises is logged as a warning.
\<close>

theorem context_teardown_tracing:
  assumes "trace_enabled ctx"
  shows
   "(trace_retain_on_failure ctx \<and> \<not> last_failed ctx
       \<longrightarrow> Called (TracingStop None) \<in> set (fst (context_teardown raises adir (Some ctx) True n))
           \<and> (\<forall>p. Called (TracingStop (Some p))
                  \<notin> set (fst (context_teardown raises adir (Some ctx) True n))))
    \<and> (\<not> (trace_retain_on_failure ctx \<and> \<not> last_failed ctx) \<and> \<not> raises GetAppConfig
       \<longrightarrow> Called (TracingStop (Some (trace_file adir (nodeid n))))
             \<in> set (fst (context_teardown raises adir (Some ctx) True n))
           \<and> Called (TracingStop None)
             \<notin> set (fst (context_teardown raises adir (Some ctx) True n)))
    \<and> (\<forall>c. Called (TracingStop c) \<in> set (fst (context_teardown raises adir (Some ctx) True n))
            \<and> raises (TracingStop c)
         \<longrightarrow> Logged Warning ''Failed to stop tracing for %s: %s'' (Raised (TracingStop c))
               \<in> set (fst (context_teardown raises adir (Some ctx) True n)))
    \<and> (\<not> (trace_retain_on_failure ctx \<and> \<not> last_failed ctx) \<and> raises GetAppConfig
       \<longrightarrow> Logged Warning ''Failed to stop tracing for %s: %s'' (Raised GetAppConfig)
             \<in> set (fst (context_teardown raises adir (Some ctx) True n)))
    \<and> snd (context_teardown raises adir (Some ctx) True n) = Inr ()
    \<and> Called ContextClose \<in> set (fst (context_teardown raises adir (Some ctx) True n))
    \<and> steps (fst (context_teardown raises adir (Some ctx) True n))
        = (if (trace_retain_on_failure ctx \<and> \<not> last_failed ctx) \<or> \<not> raises GetAppConfig
           then [StopTracing, CloseContext] else [CloseContext])
    \<and> (raises ContextClose
       \<longrightarrow> Logged Warning ''Failed to close context for %s: %s'' (Raised ContextClose)
             \<in> set (fst (context_teardown raises adir (Some ctx) True n)))"
  unfolding context_teardown_started[OF assms]
  by (auto simp: steps_simps split: if_splits)

theorem context_teardown_tracing_witness:
  "trace_enabled (example_context False False True True)
   \<and> trace_retain_on_failure (example_context False False True True)
   \<and> \<not> last_failed (example_context False False True True)
   \<and> Called (TracingStop None)
        \<in> set (fst (context_teardown quiet artifacts
                       (Some (example_context False False True True)) True
                       (example_node (Some passed_report) (Some passed_report))))
   \<and> last_failed ((example_context False False True True)\<lparr>last_failed := True\<rparr>)
   \<and> Called (TracingStop (Some (trace_file artifacts ''tests/login::test[a/b]'')))
        \<in> set (fst (context_teardown quiet artifacts
                       (Some ((example_context False False True True)\<lparr>last_failed := True\<rparr>))
                       True (example_node (Some passed_report) (Some failed_report))))
   \<and> snd (context_teardown quiet artifacts
            (Some ((example_context False False True True)\<lparr>last_failed := True\<rparr>))
            True (example_node (Some passed_report) (Some failed_report))) = Inr ()"
proof -
  let ?c = "example_context False False True True"
  let ?f = "?c\<lparr>last_failed := True\<rparr>"
  have a: "trace_enabled ?c" "trace_retain_on_failure ?c" "\<not> last_failed ?c"
    by (simp_all add: example_context_def)
  have b: "trace_enabled ?f" "trace_retain_on_failure ?f" "last_failed ?f"
    by (simp_all add: example_context_def)
  have q: "\<not> quiet c" for c by (simp add: quiet_def)
  have nid: "nodeid (example_node (Some passed_report) (Some failed_report))
               = ''tests/login::test[a/b]''"
    by (simp add: example_node_def)
  show ?thesis
    using a b q
      context_teardown_tracing [OF a(1), of quiet artifacts
        "example_node (Some passed_report) (Some passed_report)"]
      context_teardown_tracing [OF b(1), of quiet artifacts
        "example_node (Some passed_report) (Some failed_report)"]
    unfolding nid by simp
qed


section \<open>The order of a teardown\<close>

lemma steps_within:
  "(\<And>e. e \<in> set xs \<Longrightarrow> step_of e = None \<or> step_of e = Some k) \<Longrightarrow> set (steps xs) \<subseteq> {k}"
proof (induction xs)
  case Nil
  then show ?case by (simp add: steps_Nil)
next
  case (Cons x xs)
  then have "set (steps xs) \<subseteq> {k}" by simp
  moreover have "step_of x = None \<or> step_of x = Some k" using Cons.prems by simp
  ultimately show ?case by (auto simp: steps_Cons)
qed

lemma sorted_one_rank: "set xs \<subseteq> {k} \<Longrightarrow> sorted (map rank xs)"
  by (induction xs) auto

lemma page_teardown_last_failed:
  "fst (page_teardown raises adir ctx n pv) = ctx\<lparr>last_failed := failed_any n\<rparr>"
  by (simp add: page_teardown_def Let_def)

lemma page_teardown_steps:
  "\<exists>ds fs. steps (fst (snd (page_teardown raises adir ctx n pv))) = ds @ [ClosePage] @ fs
      \<and> set ds \<subseteq> {Diagnostics} \<and> set fs \<subseteq> {FinalizeVideo}"
proof -
  let ?D = "fst (if failed_any n \<or> skipped_any n
                 then capture_diagnostics raises adir n else ret ())"
  let ?F = "fst (if record_video_enabled ctx then
               finalize_video_artifact raises adir (if raises PageVideo then None else pv)
                 (nodeid n) (failed_any n \<or> skipped_any n \<or> keep_video_on_pass ctx)
                 (failed_any n \<or> skipped_any n)
             else if (if raises PageVideo then None else pv) \<noteq> None then
               finalize_video_artifact raises adir (if raises PageVideo then None else pv)
                 (nodeid n) False False
             else ret None)"
  have d: "set (steps ?D) \<subseteq> {Diagnostics}"
    by (rule steps_within) (rule prelude_steps)
  have f: "set (steps ?F) \<subseteq> {FinalizeVideo}"
  proof (rule steps_within)
    fix e assume "e \<in> set ?F"
    then show "step_of e = None \<or> step_of e = Some FinalizeVideo"
      using finalize_steps[of e] by (auto simp: ret_def split: if_splits)
  qed
  have "steps (fst (snd (page_teardown raises adir ctx n pv)))
          = steps ?D @ [ClosePage] @ steps ?F"
    unfolding page_teardown_shape fst_conv by (simp add: steps_simps)
  with d f show ?thesis by blast
qed

lemma context_teardown_steps:
  "steps (fst (context_teardown raises adir (Some ctx) started n)) = [StopTracing, CloseContext]
   \<or> steps (fst (context_teardown raises adir (Some ctx) started n)) = [CloseContext]"
proof (cases "trace_enabled ctx \<and> started")
  case True
  then have s: "started = True" and t: "trace_enabled ctx" by simp_all
  show ?thesis unfolding s context_teardown_started[OF t] by (simp add: steps_simps)
next
  case False
  then show ?thesis by (simp add: context_teardown_not_started steps_simps)
qed

lemma test_teardown_events:
  "fst (test_teardown raises adir ctx started n pv)
     = fst (snd (page_teardown raises adir ctx n pv))
       @ fst (context_teardown raises adir (Some (ctx\<lparr>last_failed := failed_any n\<rparr>)) started n)"
proof -
  obtain c es r where p: "page_teardown raises adir ctx n pv = (c, es, r)"
    by (cases "page_teardown raises adir ctx n pv") auto
  then have c: "c = ctx\<lparr>last_failed := failed_any n\<rparr>"
    using page_teardown_last_failed[of raises adir ctx n pv] by simp
  show ?thesis
    unfolding test_teardown_def p c by (simp split: prod.splits)
qed

text \<open>
  C4, as amended. For every teardown of a test that uses the \<open>page\<close> and \<open>context\<close>
  fixtures, the steps occur in the order: capture diagnostics, close page, finalize video,
  stop tracing, close context. The video is finalized by the page fixture, before the
  context fixture stops tracing and closes the context. The close of the page and the close
  of the context are attempted in every teardown, and the close of the context is the last
  step.
\<close>

theorem teardown_order:
  "in_order fixture_rank (fst (test_teardown raises adir ctx started n pv))
   \<and> Called PageClose \<in> set (fst (test_teardown raises adir ctx started n pv))
   \<and> Called ContextClose \<in> set (fst (test_teardown raises adir ctx started n pv))
   \<and> last (steps (fst (test_teardown raises adir ctx started n pv))) = CloseContext"
proof -
  let ?c = "ctx\<lparr>last_failed := failed_any n\<rparr>"
  obtain ds fs where p: "steps (fst (snd (page_teardown raises adir ctx n pv)))
        = ds @ [ClosePage] @ fs"
    and d: "set ds \<subseteq> {Diagnostics}" and f: "set fs \<subseteq> {FinalizeVideo}"
    using page_teardown_steps by blast
  have c: "steps (fst (context_teardown raises adir (Some ?c) started n))
                = [StopTracing, CloseContext]
        \<or> steps (fst (context_teardown raises adir (Some ?c) started n)) = [CloseContext]"
    by (rule context_teardown_steps)
  have sd: "sorted (map fixture_rank ds)" using d by (rule sorted_one_rank)
  have sf: "sorted (map fixture_rank fs)" using f by (rule sorted_one_rank)
  have rd: "\<forall>x \<in> set ds. fixture_rank x = 0" using d by auto
  have rf: "\<forall>x \<in> set fs. fixture_rank x = 2" using f by auto
  have 1: "in_order fixture_rank (fst (test_teardown raises adir ctx started n pv))"
    unfolding in_order_def test_teardown_events steps_append p
    using c sd sf rd rf by (auto simp: sorted_append)
  have 2: "Called PageClose \<in> set (fst (test_teardown raises adir ctx started n pv))"
    unfolding test_teardown_events page_teardown_shape by simp
  have 3: "Called ContextClose \<in> set (fst (test_teardown raises adir ctx started n pv))"
  proof (cases "trace_enabled ?c \<and> started")
    case True
    then have s: "started = True" and t: "trace_enabled ?c" by simp_all
    show ?thesis unfolding test_teardown_events s context_teardown_started[OF t] by simp
  next
    case False
    then show ?thesis
      unfolding test_teardown_events by (simp add: context_teardown_not_started)
  qed
  have 4: "last (steps (fst (test_teardown raises adir ctx started n pv))) = CloseContext"
    unfolding test_teardown_events steps_append using c by auto
  show ?thesis using 1 2 3 4 by blast
qed

text \<open>A failing test with video recording and tracing on, in a world where no call
  raises: the three calls of the video finalizer come before the stop of tracing and the
  close of the context, which is not the order diagnostics, close page, stop tracing, close
  context, finalize video.\<close>

theorem finalize_before_tracing_stop_counterexample:
  "steps (fst (test_teardown quiet artifacts (example_context True False True False) True
                (example_node (Some passed_report) (Some failed_report)) (Some 7)))
     = [Diagnostics, Diagnostics, Diagnostics, Diagnostics, ClosePage,
        FinalizeVideo, FinalizeVideo, FinalizeVideo, StopTracing, CloseContext]
   \<and> \<not> in_order specified_rank
        (fst (test_teardown quiet artifacts (example_context True False True False) True
                (example_node (Some passed_report) (Some failed_report)) (Some 7)))"
  by code_simp

theorem teardown_order_witness:
  "in_order fixture_rank
     (fst (test_teardown quiet artifacts (example_context True True True False) True
            (example_node (Some passed_report) (Some passed_report)) (Some 7)))
   \<and> steps (fst (test_teardown quiet artifacts (example_context True True True False) True
            (example_node (Some passed_report) (Some passed_report)) (Some 7)))
       = [ClosePage, FinalizeVideo, FinalizeVideo, StopTracing, CloseContext]
   \<and> Called PageClose
       \<in> set (fst (test_teardown quiet artifacts (example_context True True True False) True
            (example_node (Some passed_report) (Some passed_report)) (Some 7)))"
proof -
  have s: "steps (fst (test_teardown quiet artifacts (example_context True True True False) True
            (example_node (Some passed_report) (Some passed_report)) (Some 7)))
       = [ClosePage, FinalizeVideo, FinalizeVideo, StopTracing, CloseContext]"
    by code_simp
  show ?thesis
    using s teardown_order [of quiet artifacts "example_context True True True False" True
        "example_node (Some passed_report) (Some passed_report)" "Some 7"]
    by simp
qed

end
